theory Spec2Isabelle
  imports Main "HOL-Library.Sublist"
begin

section \<open>Data model\<close>

text \<open>
  The script \<^verbatim>\<open>scripts/convert-icon.py\<close> loads the icon with
  \<^verbatim>\<open>Image.open(input_png).convert('RGBA')\<close>. A pixel is then a 4-tuple
  \<^verbatim>\<open>(r, g, b, a)\<close> of Python integers, and \<^verbatim>\<open>list(img.getdata())\<close> is the
  row-major list of all pixels; \<^verbatim>\<open>img.size\<close> is the pair of width and height.
\<close>

type_synonym pixel = "int \<times> int \<times> int \<times> int"

record bitmap =
  width :: nat
  height :: nat
  pixels :: "pixel list"

text \<open>A decoded image holds exactly one pixel for every position of its grid.\<close>

definition wf_bitmap :: "bitmap \<Rightarrow> bool" where
  "wf_bitmap img = (length (pixels img) = width img * height img)"

datatype error =
    FileNotFoundError | PermissionError | UnidentifiedImageError | UnicodeDecodeError
  | TypeError | VectorizerError

abbreviation black :: pixel where
  "black \<equiv> (0, 0, 0, 255)"

abbreviation white :: pixel where
  "white \<equiv> (255, 255, 255, 255)"

section \<open>Silhouette construction\<close>

text \<open>
  Lines 40 to 46: the loop over \<^verbatim>\<open>data\<close> that appends one pixel to
  \<^verbatim>\<open>new_data\<close> for every source pixel. The accumulator is the list built so far.
  \<^verbatim>\<open>
    new_data = []
    for item in data:
        r, g, b, a = item
        if a > 50 and not (r > 250 and g > 250 and b > 250):
            new_data.append((0, 0, 0, 255))  # Black
        else:
            new_data.append((255, 255, 255, 255))  # White background
  \<close>
\<close>

fun silhouette_loop :: "pixel list \<Rightarrow> pixel list \<Rightarrow> pixel list" where
  "silhouette_loop [] new_data = new_data"
| "silhouette_loop ((r, g, b, a) # data) new_data =
     (if a > 50 \<and> \<not> (r > 250 \<and> g > 250 \<and> b > 250)
      then silhouette_loop data (new_data @ [(0, 0, 0, 255)])
      else silhouette_loop data (new_data @ [(255, 255, 255, 255)]))"

text \<open>
  \<^verbatim>\<open>Image.new('RGBA', (width, height))\<close> is an image of the given size whose pixels
  are all \<^verbatim>\<open>(0, 0, 0, 0)\<close>.
\<close>

definition Image_new :: "nat \<Rightarrow> nat \<Rightarrow> bitmap" where
  "Image_new w h = \<lparr>width = w, height = h, pixels = replicate (w * h) (0, 0, 0, 0)\<rparr>"

text \<open>
  \<^verbatim>\<open>img.putdata(seq)\<close> copies the sequence into the image starting at the upper
  left corner; pixels past the end of the sequence keep their value, and a sequence
  longer than the image raises \<^verbatim>\<open>TypeError\<close> (too many data entries).
\<close>

definition putdata :: "bitmap \<Rightarrow> pixel list \<Rightarrow> error + bitmap" where
  "putdata img seq =
     (if length seq > width img * height img then Inl TypeError
      else Inr (img\<lparr>pixels := seq @ drop (length seq) (pixels img)\<rparr>))"

text \<open>
  Lines 36 to 49: from the loaded image to the image \<^verbatim>\<open>img_bw\<close> that is saved as
  the silhouette bitmap.
\<close>

definition silhouette :: "bitmap \<Rightarrow> error + bitmap" where
  "silhouette img =
     (let data = pixels img;
          new_data = silhouette_loop data []
      in putdata (Image_new (width img) (height img)) new_data)"

section \<open>Files and the external vectorizer\<close>

text \<open>
  The script reads and writes files at fixed paths and calls the external routine
  \<^verbatim>\<open>vtracer.convert_image_to_svg_py\<close> twice. The file system is a map from
  paths to contents; a file holds a decoded RGBA image or text. Whether a path can be
  opened for reading or for writing depends on directories and permissions, which the
  script never changes: \<open>read_error\<close> and \<open>write_error\<close> give the error that
  opening a path raises, if any. The vectorizer is a parameter of the model: a function
  of its keyword arguments and of what it finds at its input path, returning the text it
  writes or the error it raises. The float \<^verbatim>\<open>length_threshold=4.0\<close> is held as the
  integer 4; the \<^verbatim>\<open>print\<close> calls are left out.
\<close>

datatype file_data = Image bitmap | Text string

type_synonym fs = "string \<rightharpoonup> file_data"

record access =
  read_error :: "string \<Rightarrow> error option"
  write_error :: "string \<Rightarrow> error option"

record vtracer_args =
  colormode :: string
  hierarchical :: string
  mode :: string
  filter_speckle :: int
  color_precision :: "int option"
  layer_difference :: "int option"
  corner_threshold :: int
  length_threshold :: int
  max_iterations :: int
  splice_threshold :: int
  path_precision :: int

type_synonym vectorizer = "vtracer_args \<Rightarrow> file_data option \<Rightarrow> error + string"

text \<open>
  Writing a file (\<^verbatim>\<open>img_bw.save(path)\<close>, \<^verbatim>\<open>open(path, 'w')\<close> and the
  vectorizer's own output) raises when the path cannot be opened for writing.
\<close>

definition write_file :: "access \<Rightarrow> fs \<Rightarrow> string \<Rightarrow> file_data \<Rightarrow> error + fs" where
  "write_file acc fs path data =
     (case write_error acc path of
        Some e \<Rightarrow> Inl e
      | None \<Rightarrow> Inr (fs(path \<mapsto> data)))"

definition convert_image_to_svg_py ::
    "vectorizer \<Rightarrow> access \<Rightarrow> string \<Rightarrow> string \<Rightarrow> vtracer_args \<Rightarrow> fs \<Rightarrow> error + fs" where
  "convert_image_to_svg_py v acc image_path out_path args fs =
     (case read_error acc image_path of
        Some e \<Rightarrow> Inl e
      | None \<Rightarrow>
          (case v args (fs image_path) of
             Inl e \<Rightarrow> Inl e
           | Inr svg \<Rightarrow> write_file acc fs out_path (Text svg)))"

text \<open>Lines 14 to 28: the keyword arguments of the full-colour call.\<close>

definition color_args :: vtracer_args where
  "color_args = \<lparr>colormode = ''color'', hierarchical = ''stacked'', mode = ''spline'',
     filter_speckle = 4, color_precision = Some 6, layer_difference = Some 16,
     corner_threshold = 60, length_threshold = 4, max_iterations = 10,
     splice_threshold = 45, path_precision = 3\<rparr>"

text \<open>Lines 53 to 65: the keyword arguments of the binary call.\<close>

definition binary_args :: vtracer_args where
  "binary_args = \<lparr>colormode = ''binary'', hierarchical = ''stacked'', mode = ''spline'',
     filter_speckle = 4, color_precision = None, layer_difference = None,
     corner_threshold = 60, length_threshold = 4, max_iterations = 10,
     splice_threshold = 45, path_precision = 3\<rparr>"

definition convert_to_color_svg ::
    "vectorizer \<Rightarrow> access \<Rightarrow> string \<Rightarrow> string \<Rightarrow> fs \<Rightarrow> error + fs" where
  "convert_to_color_svg v acc input_png output_svg fs =
     convert_image_to_svg_py v acc input_png output_svg color_args fs"

text \<open>
  \<^verbatim>\<open>Image.open(path).convert('RGBA')\<close> raises when the file is missing, cannot be
  opened or is not an image; \<^verbatim>\<open>open(path, 'r').read()\<close> raises when the file is
  missing, cannot be opened or is not text.
\<close>

definition Image_open :: "access \<Rightarrow> fs \<Rightarrow> string \<Rightarrow> error + bitmap" where
  "Image_open acc fs path =
     (case fs path of
        None \<Rightarrow> Inl FileNotFoundError
      | Some f \<Rightarrow>
          (case read_error acc path of
             Some e \<Rightarrow> Inl e
           | None \<Rightarrow>
               (case f of
                  Text t \<Rightarrow> Inl UnidentifiedImageError
                | Image img \<Rightarrow> Inr img)))"

definition read_text :: "access \<Rightarrow> fs \<Rightarrow> string \<Rightarrow> error + string" where
  "read_text acc fs path =
     (case fs path of
        None \<Rightarrow> Inl FileNotFoundError
      | Some f \<Rightarrow>
          (case read_error acc path of
             Some e \<Rightarrow> Inl e
           | None \<Rightarrow>
               (case f of
                  Image img \<Rightarrow> Inl UnicodeDecodeError
                | Text t \<Rightarrow> Inr t)))"

section \<open>Regular expressions\<close>

text \<open>
  The two patterns of the script, \<^verbatim>\<open><path[^>]+/>\<close> and \<^verbatim>\<open>fill="[^"]*"\<close>, are
  sequences of single characters, negated one-character classes, and greedy \<open>+\<close> and
  \<open>*\<close> over them. \<open>rmatch\<close> is the backtracking matcher of Python's \<^verbatim>\<open>re\<close> on this
  fragment: it matches at the start of the string, a repetition takes as many characters
  as it can and gives them back one at a time when the rest of the pattern fails, and the
  result is the text left after the match.
\<close>

datatype atom = Lit char | NotChar char

datatype item = One atom | Plus atom | Star atom

fun accepts :: "atom \<Rightarrow> char \<Rightarrow> bool" where
  "accepts (Lit x) c = (c = x)"
| "accepts (NotChar x) c = (c \<noteq> x)"

fun rmatch :: "item list \<Rightarrow> string \<Rightarrow> string option" where
  "rmatch [] s = Some s"
| "rmatch (One a # pat) [] = None"
| "rmatch (One a # pat) (c # cs) = (if accepts a c then rmatch pat cs else None)"
| "rmatch (Plus a # pat) [] = None"
| "rmatch (Plus a # pat) (c # cs) = (if accepts a c then rmatch (Star a # pat) cs else None)"
| "rmatch (Star a # pat) [] = rmatch pat []"
| "rmatch (Star a # pat) (c # cs) =
     (if accepts a c
      then (case rmatch (Star a # pat) cs of Some rest \<Rightarrow> Some rest | None \<Rightarrow> rmatch pat (c # cs))
      else rmatch pat (c # cs))"

definition literal :: "string \<Rightarrow> item list" where
  "literal s = map (\<lambda>c. One (Lit c)) s"

text \<open>
  \<^verbatim>\<open>re.findall\<close> scans from left to right: where the pattern matches, the matched
  text is collected and the scan goes on after it; elsewhere the scan moves one
  character on. An empty match is collected and the scan moves one character on.
\<close>

function findall :: "item list \<Rightarrow> string \<Rightarrow> string list" where
  "findall pat s =
     (case rmatch pat s of
        Some rest \<Rightarrow>
          (if length rest < length s
           then take (length s - length rest) s # findall pat rest
           else [] # (case s of [] \<Rightarrow> [] | c # cs \<Rightarrow> findall pat cs))
      | None \<Rightarrow> (case s of [] \<Rightarrow> [] | c # cs \<Rightarrow> findall pat cs))"
  by pat_completeness auto
termination
  by (relation "measure (\<lambda>(pat, s). length s)") auto

text \<open>
  \<^verbatim>\<open>re.sub\<close> with a replacement that has no group reference: the same scan, writing
  the replacement for every match and copying every other character.
\<close>

function sub :: "item list \<Rightarrow> string \<Rightarrow> string \<Rightarrow> string" where
  "sub pat repl s =
     (case rmatch pat s of
        Some rest \<Rightarrow>
          (if length rest < length s
           then repl @ sub pat repl rest
           else repl @ (case s of [] \<Rightarrow> [] | c # cs \<Rightarrow> c # sub pat repl cs))
      | None \<Rightarrow> (case s of [] \<Rightarrow> [] | c # cs \<Rightarrow> c # sub pat repl cs))"
  by pat_completeness auto
termination
  by (relation "measure (\<lambda>(pat, repl, s). length s)") auto

declare findall.simps [simp del] sub.simps [simp del]

text \<open>Line 71: \<^verbatim>\<open>r'<path[^>]+/>'\<close>; line 81: \<^verbatim>\<open>r'fill="[^"]*"'\<close>.\<close>

definition path_re :: "item list" where
  \<open>path_re = literal ''<path'' @ [Plus (NotChar CHR ''>'')] @ literal ''/>''\<close>

definition fill_re :: "item list" where
  \<open>fill_re = literal ''fill="'' @ [Star (NotChar CHR 0x22)] @ literal [CHR 0x22]\<close>

section \<open>Path extraction and the monochrome document\<close>

text \<open>
  \<^verbatim>\<open>p.lower()\<close>: the letters A to Z become a to z. The other characters that Python
  changes are outside ASCII and none of them becomes a letter of \<^verbatim>\<open>black\<close> among
  the 8-bit characters of the model.
\<close>

definition lower_char :: "char \<Rightarrow> char" where
  "lower_char c =
     (case map_of (zip ''ABCDEFGHIJKLMNOPQRSTUVWXYZ'' ''abcdefghijklmnopqrstuvwxyz'') c of
        Some d \<Rightarrow> d | None \<Rightarrow> c)"

definition lower :: "string \<Rightarrow> string" where
  "lower s = map lower_char s"

text \<open>
  Lines 71 to 75. Python's \<^verbatim>\<open>x in p\<close> on strings is the contiguous-substring test
  \<open>sublist x p\<close>.
  \<^verbatim>\<open>
    paths = re.findall(r'<path[^>]+/>', content)
    black_paths = [p for p in paths if '#000' in p or 'black' in p.lower()]
    if not black_paths:
        black_paths = [p for p in paths if '#fff' not in p and '#FFF' not in p]
  \<close>
\<close>

definition extract_paths :: "string \<Rightarrow> string list" where
  \<open>extract_paths content =
     (let paths = findall path_re content;
          black_paths = filter (\<lambda>p. sublist ''#000'' p \<or> sublist ''black'' (lower p)) paths
      in if black_paths = []
         then filter (\<lambda>p. \<not> sublist ''#fff'' p \<and> \<not> sublist ''#FFF'' p) paths
         else black_paths)\<close>

text \<open>
  Lines 78 to 84: the header line, then one line per retained element with its
  \<^verbatim>\<open>fill="..."\<close> texts replaced, then the closing tag.
  \<^verbatim>\<open>
    for path in black_paths:
        path = re.sub(r'fill="[^"]*"', 'fill="currentColor"', path)
        svg_content += path + '\n'
  \<close>
\<close>

fun svg_loop :: "string list \<Rightarrow> string \<Rightarrow> string" where
  "svg_loop [] svg_content = svg_content"
| \<open>svg_loop (path # black_paths) svg_content =
     (let path = sub fill_re ''fill="currentColor"'' path
      in svg_loop black_paths (svg_content @ path @ [CHR 0x0A]))\<close>

definition svg_header :: string where
  \<open>svg_header = ''<svg xmlns="http://www.w3.org/2000/svg" viewBox="0 0 1206 1206" width="24" height="24" fill="currentColor">'' @ [CHR 0x0A]\<close>

definition mono_document :: "string \<Rightarrow> string" where
  \<open>mono_document content =
     (let black_paths = extract_paths content;
          svg_content = svg_header;
          svg_content = svg_loop black_paths svg_content
      in svg_content @ ''</svg>'')\<close>

section \<open>The two conversions and the entry point\<close>

text \<open>
  Lines 32 to 89. Every step that can raise passes its error on; the silhouette is saved
  to \<^verbatim>\<open>/tmp/icon_silhouette.png\<close>, the vectorizer writes \<^verbatim>\<open>/tmp/silhouette.svg\<close>,
  which is read back, and the document is written to \<^verbatim>\<open>output_svg\<close>.
\<close>

definition convert_to_monochrome_svg ::
    "vectorizer \<Rightarrow> access \<Rightarrow> string \<Rightarrow> string \<Rightarrow> fs \<Rightarrow> error + fs" where
  "convert_to_monochrome_svg v acc input_png output_svg fs =
     (case Image_open acc fs input_png of
        Inl e \<Rightarrow> Inl e
      | Inr img \<Rightarrow>
          (case silhouette img of
             Inl e \<Rightarrow> Inl e
           | Inr img_bw \<Rightarrow>
               (case write_file acc fs ''/tmp/icon_silhouette.png'' (Image img_bw) of
                  Inl e \<Rightarrow> Inl e
                | Inr fs1 \<Rightarrow>
                    (case convert_image_to_svg_py v acc ''/tmp/icon_silhouette.png''
                            ''/tmp/silhouette.svg'' binary_args fs1 of
                       Inl e \<Rightarrow> Inl e
                     | Inr fs2 \<Rightarrow>
                         (case read_text acc fs2 ''/tmp/silhouette.svg'' of
                            Inl e \<Rightarrow> Inl e
                          | Inr content \<Rightarrow>
                              write_file acc fs2 output_svg (Text (mono_document content)))))))"

text \<open>
  \<^verbatim>\<open>os.path.join(a, b)\<close> for a relative \<open>b\<close>. Lines 92 to 103: the entry point, with
  the project directory (the parent of the script's directory) as a parameter.
\<close>

definition os_path_join :: "string \<Rightarrow> string \<Rightarrow> string" where
  "os_path_join a b = (if a = [] \<or> last a = CHR ''/'' then a @ b else a @ ''/'' @ b)"

definition main :: "vectorizer \<Rightarrow> access \<Rightarrow> string \<Rightarrow> fs \<Rightarrow> error + fs" where
  "main v acc project_dir fs =
     (let input_png = os_path_join project_dir ''icon.png'';
          color_svg = os_path_join project_dir ''icon.svg'';
          mono_svg = os_path_join project_dir ''activitybar-icon.svg''
      in case convert_to_color_svg v acc input_png color_svg fs of
           Inl e \<Rightarrow> Inl e
         | Inr fs1 \<Rightarrow> convert_to_monochrome_svg v acc input_png mono_svg fs1)"

text \<open>An environment in which every path can be opened.\<close>

definition all_access :: access where
  "all_access = \<lparr>read_error = (\<lambda>path. None), write_error = (\<lambda>path. None)\<rparr>"

section \<open>The specification's notions\<close>

text \<open>The classification rule in the words of the specification.\<close>

definition foreground :: "pixel \<Rightarrow> bool" where
  "foreground p = (case p of (r, g, b, a) \<Rightarrow> a > 50 \<and> \<not> (r > 250 \<and> g > 250 \<and> b > 250))"

definition near_white :: "pixel \<Rightarrow> bool" where
  "near_white p = (case p of (r, g, b, a) \<Rightarrow> r > 250 \<and> g > 250 \<and> b > 250)"

definition alpha :: "pixel \<Rightarrow> int" where
  "alpha p = (case p of (r, g, b, a) \<Rightarrow> a)"

definition classify :: "pixel \<Rightarrow> pixel" where
  "classify p = (if foreground p then black else white)"





text \<open>
  What the code tests instead: the text of the whole element mentions \<^verbatim>\<open>#000\<close> or,
  in any letter case, \<^verbatim>\<open>black\<close>; it mentions \<^verbatim>\<open>#fff\<close> or \<^verbatim>\<open>#FFF\<close>.
\<close>

definition mentions_black :: "string \<Rightarrow> bool" where
  "mentions_black p = ((\<exists>u w. p = u @ ''#000'' @ w) \<or> (\<exists>u w. lower p = u @ ''black'' @ w))"

definition mentions_white :: "string \<Rightarrow> bool" where
  "mentions_white p = ((\<exists>u w. p = u @ ''#fff'' @ w) \<or> (\<exists>u w. p = u @ ''#FFF'' @ w))"









section \<open>The silhouette loop is a pointwise map\<close>

lemma silhouette_loop_map:
  "silhouette_loop data new_data = new_data @ map classify data"
  by (induction data new_data rule: silhouette_loop.induct)
     (simp_all add: classify_def foreground_def)

lemma silhouette_Inr:
  assumes "wf_bitmap img"
  shows "silhouette img =
           Inr \<lparr>width = width img, height = height img, pixels = map classify (pixels img)\<rparr>"
  using assms
  by (simp add: silhouette_def putdata_def Image_new_def wf_bitmap_def silhouette_loop_map)

lemma classify_black_iff: "classify p = black \<longleftrightarrow> foreground p"
  by (simp add: classify_def)

lemma classify_white_iff: "classify p = white \<longleftrightarrow> \<not> foreground p"
  by (simp add: classify_def)

section \<open>Claims about the silhouette\<close>

text \<open>
  C1. For every source bitmap and every pixel \<open>(r, g, b, a)\<close> in it, the silhouette holds
  opaque black \<open>(0, 0, 0, 255)\<close> at the same position exactly when \<open>a > 50\<close> and not all
  of \<open>r\<close>, \<open>g\<close>, \<open>b\<close> exceed 250, and opaque white \<open>(255, 255, 255, 255)\<close> at that
  position otherwise.
\<close>

theorem silhouette_pixel_rule:
  assumes "wf_bitmap img" and "i < length (pixels img)" and "pixels img ! i = (r, g, b, a)"
  shows "\<exists>bw. silhouette img = Inr bw \<and>
           (pixels bw ! i = (0, 0, 0, 255)) = (a > 50 \<and> \<not> (r > 250 \<and> g > 250 \<and> b > 250)) \<and>
           (pixels bw ! i = (255, 255, 255, 255)) = (\<not> (a > 50 \<and> \<not> (r > 250 \<and> g > 250 \<and> b > 250)))"
proof -
  let ?bw = "\<lparr>width = width img, height = height img, pixels = map classify (pixels img)\<rparr>"
  have run: "silhouette img = Inr ?bw"
    using assms(1) by (rule silhouette_Inr)
  have at: "pixels ?bw ! i = classify (r, g, b, a)"
    using assms(2,3) by simp
  have fg: "foreground (r, g, b, a) = (a > 50 \<and> \<not> (r > 250 \<and> g > 250 \<and> b > 250))"
    by (simp add: foreground_def)
  show ?thesis
    using run at fg classify_black_iff [of "(r, g, b, a)"] classify_white_iff [of "(r, g, b, a)"]
    by metis
qed

theorem silhouette_pixel_rule_witness:
  "wf_bitmap \<lparr>width = 2, height = 1, pixels = [(10, 20, 30, 200), (255, 255, 255, 255)]\<rparr> \<and>
   (\<exists>bw. silhouette \<lparr>width = 2, height = 1, pixels = [(10, 20, 30, 200), (255, 255, 255, 255)]\<rparr> = Inr bw \<and>
      pixels bw ! 0 = (0, 0, 0, 255))"
proof -
  let ?img = "\<lparr>width = 2, height = 1, pixels = [(10, 20, 30, 200), (255, 255, 255, 255)]\<rparr>"
  have h1: "wf_bitmap ?img" by (simp add: wf_bitmap_def)
  have h2: "0 < length (pixels ?img)" by simp
  have h3: "pixels ?img ! 0 = (10, 20, 30, 200)" by simp
  show ?thesis
    using h1 silhouette_pixel_rule [OF h1 h2 h3] by auto
qed

lemma set_map_classify_subset: "set (map classify xs) \<subseteq> {black, white}"
  by (auto simp: classify_def)

lemma black_in_classified: "black \<in> set (map classify xs) \<longleftrightarrow> (\<exists>p\<in>set xs. foreground p)"
  by (auto simp: classify_def image_iff)

lemma white_in_classified: "white \<in> set (map classify xs) \<longleftrightarrow> (\<exists>p\<in>set xs. \<not> foreground p)"
  by (auto simp: classify_def image_iff)

lemma card_two_colours:
  assumes "S \<subseteq> {black, white}"
  shows "card S = 2 \<longleftrightarrow> black \<in> S \<and> white \<in> S"
proof -
  have "S = {} \<or> S = {black} \<or> S = {white} \<or> S = {black, white}"
    using assms by blast
  then show ?thesis
    by (elim disjE) auto
qed

text \<open>
  C5, as stated, fails: a source bitmap that is a single fully opaque black pixel gives a
  silhouette with one distinct pixel value, not two.
\<close>

theorem silhouette_one_value_counterexample:
  "silhouette \<lparr>width = 1, height = 1, pixels = [(0, 0, 0, 255)]\<rparr> =
     Inr \<lparr>width = 1, height = 1, pixels = [(0, 0, 0, 255)]\<rparr> \<and>
   card (set (pixels \<lparr>width = 1, height = 1, pixels = [(0, 0, 0, 255) :: pixel]\<rparr>)) = 1"
  by (simp add: silhouette_def putdata_def Image_new_def)

text \<open>
  C5, amended. For every source bitmap the silhouette has at most two distinct pixel
  values, both among opaque black and opaque white; it has exactly two exactly when
  the source has at least one foreground pixel and at least one background pixel.
\<close>

theorem silhouette_at_most_two_values:
  assumes "wf_bitmap img"
  shows "\<exists>bw. silhouette img = Inr bw \<and>
           set (pixels bw) \<subseteq> {(0, 0, 0, 255), (255, 255, 255, 255)} \<and>
           card (set (pixels bw)) \<le> 2 \<and>
           (card (set (pixels bw)) = 2 \<longleftrightarrow>
              (\<exists>p\<in>set (pixels img). foreground p) \<and> (\<exists>p\<in>set (pixels img). \<not> foreground p))"
proof -
  let ?out = "map classify (pixels img)"
  let ?bw = "\<lparr>width = width img, height = height img, pixels = ?out\<rparr>"
  have run: "silhouette img = Inr ?bw"
    using assms by (rule silhouette_Inr)
  have sub: "set ?out \<subseteq> {black, white}"
    by (rule set_map_classify_subset)
  have "card (set ?out) \<le> card {black, white}"
    using sub by (intro card_mono) auto
  then have le: "card (set ?out) \<le> 2" by simp
  have two: "card (set ?out) = 2 \<longleftrightarrow>
      (\<exists>p\<in>set (pixels img). foreground p) \<and> (\<exists>p\<in>set (pixels img). \<not> foreground p)"
    using card_two_colours [OF sub] black_in_classified [of "pixels img"]
      white_in_classified [of "pixels img"] by simp
  show ?thesis
    using run sub le two by simp
qed

theorem silhouette_at_most_two_values_witness:
  "wf_bitmap \<lparr>width = 2, height = 1, pixels = [(0, 0, 0, 255), (0, 0, 0, 0)]\<rparr> \<and>
   (\<exists>bw. silhouette \<lparr>width = 2, height = 1, pixels = [(0, 0, 0, 255), (0, 0, 0, 0)]\<rparr> = Inr bw \<and>
      card (set (pixels bw)) = 2)"
proof -
  let ?img = "\<lparr>width = 2, height = 1, pixels = [(0, 0, 0, 255), (0, 0, 0, 0)]\<rparr>"
  have h: "wf_bitmap ?img" by (simp add: wf_bitmap_def)
  have fg: "foreground (0, 0, 0, 255)" and bg: "\<not> foreground (0, 0, 0, 0)"
    by (simp_all add: foreground_def)
  show ?thesis
    using h fg bg silhouette_at_most_two_values [OF h] by auto
qed

text \<open>
  C6. When every source pixel is fully opaque black, every silhouette pixel is black;
  when every source pixel is fully transparent (alpha 0) or near-white (red, green and
  blue all above 250), every silhouette pixel is white.
\<close>

theorem silhouette_uniform_sources:
  assumes "wf_bitmap img"
  shows "\<exists>bw. silhouette img = Inr bw \<and>
           ((\<forall>p\<in>set (pixels img). p = (0, 0, 0, 255)) \<longrightarrow>
              (\<forall>q\<in>set (pixels bw). q = (0, 0, 0, 255))) \<and>
           ((\<forall>p\<in>set (pixels img). alpha p = 0 \<or> near_white p) \<longrightarrow>
              (\<forall>q\<in>set (pixels bw). q = (255, 255, 255, 255)))"
proof -
  let ?bw = "\<lparr>width = width img, height = height img, pixels = map classify (pixels img)\<rparr>"
  have run: "silhouette img = Inr ?bw"
    using assms by (rule silhouette_Inr)
  have blk: "classify (0, 0, 0, 255) = black"
    by (simp add: classify_def foreground_def)
  have wht: "alpha p = 0 \<or> near_white p \<Longrightarrow> classify p = white" for p
    by (cases p) (auto simp: classify_def foreground_def alpha_def near_white_def)
  show ?thesis
    using run blk wht by auto
qed

theorem silhouette_uniform_sources_witness:
  "(\<exists>bw. silhouette \<lparr>width = 1, height = 2, pixels = [(0, 0, 0, 255), (0, 0, 0, 255)]\<rparr> = Inr bw \<and>
      pixels bw = [(0, 0, 0, 255), (0, 0, 0, 255)]) \<and>
   (\<exists>bw. silhouette \<lparr>width = 1, height = 2, pixels = [(9, 9, 9, 0), (251, 252, 255, 255)]\<rparr> = Inr bw \<and>
      pixels bw = [(255, 255, 255, 255), (255, 255, 255, 255)])"
proof -
  let ?a = "\<lparr>width = 1, height = 2, pixels = [(0, 0, 0, 255), (0, 0, 0, 255)]\<rparr>"
  let ?b = "\<lparr>width = 1, height = 2, pixels = [(9, 9, 9, 0), (251, 252, 255, 255)]\<rparr>"
  have ha: "wf_bitmap ?a" and hb: "wf_bitmap ?b"
    by (simp_all add: wf_bitmap_def)
  have pa: "\<forall>p\<in>set (pixels ?a). p = (0, 0, 0, 255)" by simp
  have pb: "\<forall>p\<in>set (pixels ?b). alpha p = 0 \<or> near_white p"
    by (simp add: alpha_def near_white_def)
  obtain bwa where a1: "silhouette ?a = Inr bwa" and a2: "\<forall>q\<in>set (pixels bwa). q = (0, 0, 0, 255)"
    using silhouette_uniform_sources [OF ha] pa by blast
  obtain bwb where b1: "silhouette ?b = Inr bwb" and b2: "\<forall>q\<in>set (pixels bwb). q = (255, 255, 255, 255)"
    using silhouette_uniform_sources [OF hb] pb by blast
  have la: "length (pixels bwa) = 2" and lb: "length (pixels bwb) = 2"
    using a1 b1 silhouette_Inr [OF ha] silhouette_Inr [OF hb] by auto
  have "pixels bwa = [(0, 0, 0, 255), (0, 0, 0, 255)]"
    using la a2 by (auto simp: length_Suc_conv numeral_2_eq_2)
  moreover have "pixels bwb = [(255, 255, 255, 255), (255, 255, 255, 255)]"
    using lb b2 by (auto simp: length_Suc_conv numeral_2_eq_2)
  ultimately show ?thesis
    using a1 b1 by simp
qed

lemma list4: "length xs = 4 \<Longrightarrow> \<exists>a b c d. xs = [a, b, c, d]"
  by (auto simp: numeral_eq_Suc length_Suc_conv)

lemma less4: "(i::nat) < 4 \<Longrightarrow> i = 0 \<or> i = 1 \<or> i = 2 \<or> i = 3"
  by arith

lemma transparent_white: "alpha p = 0 \<Longrightarrow> classify p = white"
  by (cases p) (simp add: alpha_def classify_def foreground_def)

text \<open>
  C7. A 2 by 2 source bitmap with one fully opaque black pixel, at any of the four
  positions, and three fully transparent pixels, of any colour, gives a 2 by 2
  silhouette with exactly one black pixel, at that position, and three white pixels.
\<close>

theorem silhouette_two_by_two:
  assumes "width img = 2" and "height img = 2" and "length (pixels img) = 4"
    and "i < 4" and "pixels img ! i = (0, 0, 0, 255)"
    and "\<forall>j<4. j \<noteq> i \<longrightarrow> alpha (pixels img ! j) = 0"
  shows "\<exists>bw. silhouette img = Inr bw \<and> width bw = 2 \<and> height bw = 2 \<and>
           count_list (pixels bw) (0, 0, 0, 255) = 1 \<and>
           count_list (pixels bw) (255, 255, 255, 255) = 3 \<and>
           pixels bw ! i = (0, 0, 0, 255)"
proof -
  have wf: "wf_bitmap img"
    using assms(1-3) by (simp add: wf_bitmap_def)
  let ?bw = "\<lparr>width = width img, height = height img, pixels = map classify (pixels img)\<rparr>"
  have run: "silhouette img = Inr ?bw"
    using wf by (rule silhouette_Inr)
  obtain p0 p1 p2 p3 where ps: "pixels img = [p0, p1, p2, p3]"
    using list4 [OF assms(3)] by blast
  have blk: "classify (0, 0, 0, 255) = black"
    by (simp add: classify_def foreground_def)
  have tr: "j < 4 \<Longrightarrow> j \<noteq> i \<Longrightarrow> classify (pixels img ! j) = white" for j
    using assms(6) transparent_white by blast
  have t0: "i \<noteq> 0 \<Longrightarrow> classify p0 = white" using tr [of 0] ps by simp
  have t1: "i \<noteq> 1 \<Longrightarrow> classify p1 = white" using tr [of 1] ps by simp
  have t2: "i \<noteq> 2 \<Longrightarrow> classify p2 = white" using tr [of 2] ps by simp
  have t3: "i \<noteq> 3 \<Longrightarrow> classify p3 = white" using tr [of 3] ps by simp
  have out: "map classify (pixels img) = (replicate 4 white)[i := black]"
    using less4 [OF assms(4)] assms(5) ps blk t0 t1 t2 t3
    by (auto simp: numeral_eq_Suc)
  have "count_list ((replicate 4 white)[i := black]) black = 1 \<and>
        count_list ((replicate 4 white)[i := black]) white = 3 \<and>
        (replicate 4 white)[i := black] ! i = black"
    using less4 [OF assms(4)] by (auto simp: numeral_eq_Suc)
  then show ?thesis
    using run out assms(1,2) by simp
qed

theorem silhouette_two_by_two_witness:
  "(\<exists>bw. silhouette \<lparr>width = 2, height = 2,
             pixels = [(7, 7, 7, 0), (0, 0, 0, 0), (0, 0, 0, 255), (255, 255, 255, 0)]\<rparr> = Inr bw \<and>
      count_list (pixels bw) (0, 0, 0, 255) = 1 \<and>
      count_list (pixels bw) (255, 255, 255, 255) = 3 \<and>
      pixels bw ! 2 = (0, 0, 0, 255))"
proof -
  let ?img = "\<lparr>width = 2, height = 2,
             pixels = [(7, 7, 7, 0), (0, 0, 0, 0), (0, 0, 0, 255), (255, 255, 255, 0)]\<rparr>"
  have h1: "width ?img = 2" and h2: "height ?img = 2" and h3: "length (pixels ?img) = 4"
    by simp_all
  have h4: "(2::nat) < 4" by simp
  have h5: "pixels ?img ! 2 = (0, 0, 0, 255)" by simp
  have h6: "\<forall>j<4. j \<noteq> 2 \<longrightarrow> alpha (pixels ?img ! j) = 0"
  proof (intro allI impI)
    fix j :: nat assume "j < 4" and "j \<noteq> 2"
    then have "j = 0 \<or> j = 1 \<or> j = 3" by arith
    then show "alpha (pixels ?img ! j) = 0"
      by (auto simp: alpha_def)
  qed
  show ?thesis
    using silhouette_two_by_two [OF h1 h2 h3 h4 h5 h6] by blast
qed

text \<open>
  C10. For every source bitmap each silhouette pixel is opaque black or opaque white, so
  fully opaque; the silhouette has the pixel count, width and height of the source; and
  the pixel at a position is determined by the source pixel at that position alone: it
  is the classification of that pixel, and any other source bitmap with the same pixel
  there gives the same silhouette pixel there.
\<close>

theorem silhouette_shape:
  assumes "wf_bitmap img"
  shows "\<exists>bw. silhouette img = Inr bw \<and>
           set (pixels bw) \<subseteq> {(0, 0, 0, 255), (255, 255, 255, 255)} \<and>
           (\<forall>q\<in>set (pixels bw). alpha q = 255) \<and>
           length (pixels bw) = length (pixels img) \<and>
           width bw = width img \<and> height bw = height img \<and> wf_bitmap bw \<and>
           (\<forall>i<length (pixels img). pixels bw ! i = classify (pixels img ! i)) \<and>
           (\<forall>img' bw' i. wf_bitmap img' \<and> silhouette img' = Inr bw' \<and>
               i < length (pixels img) \<and> i < length (pixels img') \<and>
               pixels img' ! i = pixels img ! i \<longrightarrow> pixels bw' ! i = pixels bw ! i)"
proof -
  let ?bw = "\<lparr>width = width img, height = height img, pixels = map classify (pixels img)\<rparr>"
  have run: "silhouette img = Inr ?bw"
    using assms by (rule silhouette_Inr)
  have sub: "set (pixels ?bw) \<subseteq> {black, white}"
    using set_map_classify_subset by simp
  have opaque: "\<forall>q\<in>set (pixels ?bw). alpha q = 255"
    using sub by (auto simp: alpha_def)
  have dims: "length (pixels ?bw) = length (pixels img) \<and> width ?bw = width img \<and>
      height ?bw = height img \<and> wf_bitmap ?bw"
    using assms by (simp add: wf_bitmap_def)
  have pointwise: "\<forall>i<length (pixels img). pixels ?bw ! i = classify (pixels img ! i)"
    by simp
  have local: "pixels bw' ! i = pixels ?bw ! i"
    if "wf_bitmap img'" "silhouette img' = Inr bw'" "i < length (pixels img)"
      "i < length (pixels img')" "pixels img' ! i = pixels img ! i" for img' bw' i
    using that silhouette_Inr [OF that(1)] by auto
  show ?thesis
    using run sub opaque dims pointwise local by blast
qed

theorem silhouette_shape_witness:
  "wf_bitmap \<lparr>width = 1, height = 2, pixels = [(1, 2, 3, 51), (1, 2, 3, 50)]\<rparr> \<and>
   (\<exists>bw. silhouette \<lparr>width = 1, height = 2, pixels = [(1, 2, 3, 51), (1, 2, 3, 50)]\<rparr> = Inr bw \<and>
      pixels bw = [(0, 0, 0, 255), (255, 255, 255, 255)] \<and> width bw = 1 \<and> height bw = 2)"
proof -
  let ?img = "\<lparr>width = 1, height = 2, pixels = [(1, 2, 3, 51), (1, 2, 3, 50)]\<rparr>"
  have h: "wf_bitmap ?img" by (simp add: wf_bitmap_def)
  obtain bw where r: "silhouette ?img = Inr bw" and l: "length (pixels bw) = length (pixels ?img)"
    and d: "width bw = width ?img" "height bw = height ?img"
    and p: "\<forall>i<length (pixels ?img). pixels bw ! i = classify (pixels ?img ! i)"
    using silhouette_shape [OF h] by blast
  have "pixels bw ! 0 = black" and "pixels bw ! 1 = white"
    using p by (simp_all add: classify_def foreground_def)
  then have "pixels bw = [black, white]"
    using l by (auto simp: length_Suc_conv numeral_2_eq_2)
  then show ?thesis
    using h r d by simp
qed

section \<open>The matcher on the two patterns\<close>

lemma rmatch_literal:
  "rmatch (literal lit @ pat) s = (if prefix lit s then rmatch pat (drop (length lit) s) else None)"
proof (induction lit arbitrary: s)
  case Nil
  then show ?case by (simp add: literal_def)
next
  case (Cons x lit)
  then show ?case
    by (cases s) (auto simp: literal_def)
qed


lemma rmatch_star_until_pair:
  assumes "sl \<noteq> g"
  shows "rmatch [Star (NotChar g), One (Lit sl), One (Lit g)] s =
     (if takeWhile (\<lambda>c. c \<noteq> g) s \<noteq> [] \<and> last (takeWhile (\<lambda>c. c \<noteq> g) s) = sl \<and>
         dropWhile (\<lambda>c. c \<noteq> g) s \<noteq> []
      then Some (tl (dropWhile (\<lambda>c. c \<noteq> g) s)) else None)"
proof (induction s)
  case Nil
  then show ?case by simp
next
  case (Cons c cs)
  show ?case
  proof (cases "c = g")
    case True
    then show ?thesis using assms by simp
  next
    case False
    show ?thesis
    proof (cases "takeWhile (\<lambda>c. c \<noteq> g) cs = []")
      case True
      then have cs: "cs = [] \<or> (\<exists>r. cs = g # r)"
        by (cases cs) (auto split: if_splits)
      then show ?thesis
        using False assms by auto
    next
      case nonempty: False
      then show ?thesis
        using False Cons.IH assms
        by (cases cs) (auto split: if_splits)
    qed
  qed
qed


lemma takeWhile_until: "x \<notin> set ys \<Longrightarrow> takeWhile (\<lambda>c. c \<noteq> x) (ys @ x # zs) = ys"
  by (induction ys) auto

lemma dropWhile_until: "x \<notin> set ys \<Longrightarrow> dropWhile (\<lambda>c. c \<noteq> x) (ys @ x # zs) = x # zs"
  by (induction ys) auto

lemma split_at_first:
  assumes "dropWhile (\<lambda>c. c \<noteq> x) s \<noteq> []"
  shows "s = takeWhile (\<lambda>c. c \<noteq> x) s @ x # tl (dropWhile (\<lambda>c. c \<noteq> x) s) \<and>
         x \<notin> set (takeWhile (\<lambda>c. c \<noteq> x) s)"
proof -
  obtain d rest where d: "dropWhile (\<lambda>c. c \<noteq> x) s = d # rest"
    using assms by (cases "dropWhile (\<lambda>c. c \<noteq> x) s") auto
  then have "d = x"
    using hd_dropWhile [of "\<lambda>c. c \<noteq> x" s] by auto
  moreover have "s = takeWhile (\<lambda>c. c \<noteq> x) s @ dropWhile (\<lambda>c. c \<noteq> x) s"
    by simp
  moreover have "x \<notin> set (takeWhile (\<lambda>c. c \<noteq> x) s)"
    using set_takeWhileD by fastforce
  ultimately show ?thesis
    using d by simp
qed

lemma rmatch_literal_iff:
  "rmatch (literal lit @ pat) s = Some rest \<longleftrightarrow> (\<exists>t. s = lit @ t \<and> rmatch pat t = Some rest)"
  unfolding rmatch_literal by (auto simp: prefix_def)


lemma plus_until_pair_iff:
  assumes sg: "sl \<noteq> g"
  shows "rmatch [Plus (NotChar g), One (Lit sl), One (Lit g)] t = Some rest \<longleftrightarrow>
     (\<exists>body. t = body @ [sl, g] @ rest \<and> body \<noteq> [] \<and> g \<notin> set body)"
proof
  assume r: "rmatch [Plus (NotChar g), One (Lit sl), One (Lit g)] t = Some rest"
  then obtain c cs where t: "t = c # cs" and c: "c \<noteq> g"
    and r': "rmatch [Star (NotChar g), One (Lit sl), One (Lit g)] cs = Some rest"
    by (cases t) (auto split: if_splits)
  let ?run = "takeWhile (\<lambda>c. c \<noteq> g) cs"
  let ?d = "dropWhile (\<lambda>c. c \<noteq> g) cs"
  from r' have cond: "?run \<noteq> [] \<and> last ?run = sl \<and> ?d \<noteq> []"
    unfolding rmatch_star_until_pair [OF sg] by (metis option.distinct(1))
  with r' have rest: "rest = tl ?d"
    unfolding rmatch_star_until_pair [OF sg] by simp
  from cond have run: "?run \<noteq> []" and lst: "last ?run = sl" and ne: "?d \<noteq> []"
    by simp_all
  from split_at_first [OF ne] rest
  have cs: "cs = ?run @ g # rest" and notin: "g \<notin> set ?run"
    by simp_all
  have runsplit: "?run = butlast ?run @ [sl]"
    using run lst by (metis append_butlast_last_id)
  let ?body = "c # butlast ?run"
  have "g \<notin> set ?body"
    using c notin by (auto dest: in_set_butlastD)
  moreover have "t = ?body @ [sl, g] @ rest"
  proof -
    have "cs = (butlast ?run @ [sl]) @ g # rest"
      using cs runsplit by metis
    then show ?thesis
      using t by simp
  qed
  ultimately show "\<exists>body. t = body @ [sl, g] @ rest \<and> body \<noteq> [] \<and> g \<notin> set body"
    by blast
next
  assume "\<exists>body. t = body @ [sl, g] @ rest \<and> body \<noteq> [] \<and> g \<notin> set body"
  then obtain body where t: "t = body @ [sl, g] @ rest" and ne: "body \<noteq> []"
    and notin: "g \<notin> set body"
    by blast
  obtain c b where body: "body = c # b"
    using ne by (cases body) auto
  have c: "c \<noteq> g" and notin': "g \<notin> set (b @ [sl])"
    using notin body sg by auto
  have tw: "takeWhile (\<lambda>c. c \<noteq> g) ((b @ [sl]) @ g # rest) = b @ [sl]"
    using notin' by (rule takeWhile_until)
  have dw: "dropWhile (\<lambda>c. c \<noteq> g) ((b @ [sl]) @ g # rest) = g # rest"
    using notin' by (rule dropWhile_until)
  have star: "rmatch [Star (NotChar g), One (Lit sl), One (Lit g)] ((b @ [sl]) @ g # rest) = Some rest"
    unfolding rmatch_star_until_pair [OF sg] tw dw by simp
  have "t = c # ((b @ [sl]) @ g # rest)"
    using t body by simp
  then show "rmatch [Plus (NotChar g), One (Lit sl), One (Lit g)] t = Some rest"
    using star c by simp
qed


lemma path_match_iff:
  \<open>rmatch path_re s = Some rest \<longleftrightarrow>
     (\<exists>body. s = ''<path'' @ body @ ''/>'' @ rest \<and> body \<noteq> [] \<and> CHR ''>'' \<notin> set body)\<close>
proof -
  have sg: "CHR ''/'' \<noteq> CHR ''>''" by simp
  have eq: \<open>path_re = literal ''<path'' @ [Plus (NotChar CHR ''>''), One (Lit CHR ''/''), One (Lit CHR ''>'')]\<close>
    by (simp add: path_re_def literal_def)
  have \<open>rmatch path_re s = Some rest \<longleftrightarrow>
      (\<exists>t. s = ''<path'' @ t \<and>
         (\<exists>body. t = body @ ''/>'' @ rest \<and> body \<noteq> [] \<and> CHR ''>'' \<notin> set body))\<close>
    unfolding eq rmatch_literal_iff plus_until_pair_iff [OF sg] ..
  then show ?thesis
    by blast
qed

lemma take_matched: "s = m @ rest \<Longrightarrow> take (length s - length rest) s = m"
  by simp

lemma findall_Nil: "findall path_re [] = []"
proof -
  have "rmatch path_re [] = None"
    using path_match_iff [of "[]"] by (cases "rmatch path_re []") auto
  then show ?thesis
    by (subst findall.simps) simp
qed

lemma findall_match:
  assumes "rmatch path_re s = Some rest"
  shows "findall path_re s = take (length s - length rest) s # findall path_re rest"
proof -
  have "length rest < length s"
    using assms path_match_iff [of s rest] by auto
  then show ?thesis
    using assms by (subst findall.simps) simp
qed

lemma findall_skip:
  assumes "rmatch path_re (c # cs) = None"
  shows "findall path_re (c # cs) = findall path_re cs"
  using assms by (subst findall.simps) simp

lemma findall_path_shape:
  \<open>p \<in> set (findall path_re s) \<Longrightarrow>
     (\<exists>body. p = ''<path'' @ body @ ''/>'' \<and> body \<noteq> [] \<and> CHR ''>'' \<notin> set body) \<and> sublist p s\<close>
proof (induction "length s" arbitrary: s rule: less_induct)
  case less
  show ?case
  proof (cases s)
    case Nil
    then show ?thesis using less.prems Nil by (simp add: findall_Nil)
  next
    case (Cons c cs)
    show ?thesis
    proof (cases "rmatch path_re s")
      case None
      then have "p \<in> set (findall path_re cs)"
        using less.prems Cons by (simp add: findall_skip)
      then have \<open>(\<exists>body. p = ''<path'' @ body @ ''/>'' \<and> body \<noteq> [] \<and> CHR ''>'' \<notin> set body) \<and> sublist p cs\<close>
        using less.hyps [of cs] Cons by simp
      then show ?thesis
        using Cons by (auto simp: sublist_Cons_right)
    next
      case (Some rest)
      then obtain body where s: \<open>s = ''<path'' @ body @ ''/>'' @ rest\<close>
        and body: "body \<noteq> []" "CHR ''>'' \<notin> set body"
        using path_match_iff [of s rest] by blast
      have \<open>s = (''<path'' @ body @ ''/>'') @ rest\<close>
        using s by simp
      then have tk: \<open>take (length s - length rest) s = ''<path'' @ body @ ''/>''\<close>
        by (rule take_matched)
      have "p = take (length s - length rest) s \<or> p \<in> set (findall path_re rest)"
        using less.prems findall_match [OF Some] by simp
      then show ?thesis
      proof
        assume "p = take (length s - length rest) s"
        then have p: \<open>p = ''<path'' @ body @ ''/>''\<close>
          using tk by simp
        have "s = [] @ p @ rest"
          unfolding p s by simp
        then have "sublist p s"
          unfolding sublist_def by blast
        then show ?thesis
          using p body by blast
      next
        assume in_rest: "p \<in> set (findall path_re rest)"
        have "length rest < length s"
          unfolding s by simp
        then have \<open>(\<exists>body. p = ''<path'' @ body @ ''/>'' \<and> body \<noteq> [] \<and> CHR ''>'' \<notin> set body) \<and> sublist p rest\<close>
          using less.hyps [of rest] in_rest by simp
        moreover have "sublist rest s"
          unfolding sublist_def using s by (metis append.assoc append_Nil2)
        ultimately show ?thesis
          using sublist_order.order_trans by blast
      qed
    qed
  qed
qed













section \<open>The extraction as a filter, the document as a concatenation\<close>

lemmas eval_regex = findall.simps sub.simps path_re_def fill_re_def literal_def

lemma mentions_black_sublist:
  "mentions_black p \<longleftrightarrow> sublist ''#000'' p \<or> sublist ''black'' (lower p)"
  unfolding mentions_black_def sublist_def by simp

lemma mentions_white_sublist:
  "mentions_white p \<longleftrightarrow> sublist ''#fff'' p \<or> sublist ''#FFF'' p"
  unfolding mentions_white_def sublist_def by simp

lemma extract_paths_eq:
  "extract_paths content =
     (if \<exists>p\<in>set (findall path_re content). mentions_black p
      then filter mentions_black (findall path_re content)
      else filter (\<lambda>p. \<not> mentions_white p) (findall path_re content))"
proof -
  have b: "(\<lambda>p. sublist ''#000'' p \<or> sublist ''black'' (lower p)) = mentions_black"
    by (rule ext) (simp add: mentions_black_sublist)
  have w: "(\<lambda>p. \<not> sublist ''#fff'' p \<and> \<not> sublist ''#FFF'' p) = (\<lambda>p. \<not> mentions_white p)"
    by (rule ext) (simp add: mentions_white_sublist)
  show ?thesis
    unfolding extract_paths_def Let_def b w by (simp add: filter_empty_conv)
qed

lemma extract_paths_subset: "set (extract_paths content) \<subseteq> set (findall path_re content)"
  unfolding extract_paths_eq by auto

lemma svg_loop_concat:
  \<open>svg_loop black_paths svg_content =
     svg_content @ concat (map (\<lambda>p. sub fill_re ''fill="currentColor"'' p @ [CHR 0x0A]) black_paths)\<close>
  by (induction black_paths arbitrary: svg_content) simp_all

lemma mono_document_eq:
  \<open>mono_document content =
     svg_header @
     concat (map (\<lambda>p. sub fill_re ''fill="currentColor"'' p @ [CHR 0x0A]) (extract_paths content)) @
     ''</svg>''\<close>
  by (simp add: mono_document_def svg_loop_concat)

section \<open>Path elements as the vectorizer writes them\<close>




















lemma lower_append: "lower (xs @ ys) = lower xs @ lower ys"
  by (simp add: lower_def)













section \<open>Claims about the extraction and the document on vectorizer output\<close>






section \<open>Claims about whole runs\<close>

lemma os_path_join_prefix: "\<exists>x. \<forall>b. os_path_join d b = x @ b"
proof (cases "d = [] \<or> last d = CHR ''/''")
  case True
  then have "\<forall>b. os_path_join d b = d @ b"
    by (simp add: os_path_join_def)
  then show ?thesis ..
next
  case False
  then have "\<forall>b. os_path_join d b = (d @ ''/'') @ b"
    by (simp add: os_path_join_def)
  then show ?thesis ..
qed

lemma suffix_differs: "rev a \<noteq> take (length a) (rev b) \<Longrightarrow> x @ a \<noteq> b"
proof
  assume d: "rev a \<noteq> take (length a) (rev b)" and e: "x @ a = b"
  have "rev b = rev a @ rev x"
    using e by auto
  then show False using d by simp
qed

lemma project_paths_distinct:
  defines "tmp_png \<equiv> ''/tmp/icon_silhouette.png''" and "tmp_svg \<equiv> ''/tmp/silhouette.svg''"
  shows "os_path_join d ''icon.png'' \<noteq> os_path_join d ''icon.svg''"
    and "os_path_join d ''icon.png'' \<noteq> os_path_join d ''activitybar-icon.svg''"
    and "os_path_join d ''icon.svg'' \<noteq> os_path_join d ''activitybar-icon.svg''"
    and "os_path_join d ''icon.png'' \<noteq> tmp_png"
    and "os_path_join d ''icon.png'' \<noteq> tmp_svg"
    and "os_path_join d ''icon.svg'' \<noteq> tmp_png"
    and "os_path_join d ''icon.svg'' \<noteq> tmp_svg"
    and "os_path_join d ''activitybar-icon.svg'' \<noteq> tmp_png"
    and "os_path_join d ''activitybar-icon.svg'' \<noteq> tmp_svg"
    and "tmp_png \<noteq> tmp_svg"
proof -
  obtain x where x: "\<And>b. os_path_join d b = x @ b"
    using os_path_join_prefix [of d] by blast
  show "os_path_join d ''icon.png'' \<noteq> os_path_join d ''icon.svg''"
    and "os_path_join d ''icon.png'' \<noteq> os_path_join d ''activitybar-icon.svg''"
    and "os_path_join d ''icon.svg'' \<noteq> os_path_join d ''activitybar-icon.svg''"
    unfolding x by simp_all
  show "os_path_join d ''icon.png'' \<noteq> tmp_png"
    and "os_path_join d ''icon.png'' \<noteq> tmp_svg"
    and "os_path_join d ''icon.svg'' \<noteq> tmp_png"
    and "os_path_join d ''icon.svg'' \<noteq> tmp_svg"
    and "os_path_join d ''activitybar-icon.svg'' \<noteq> tmp_png"
    and "os_path_join d ''activitybar-icon.svg'' \<noteq> tmp_svg"
    unfolding x tmp_png_def tmp_svg_def by (rule suffix_differs, simp)+
  show "tmp_png \<noteq> tmp_svg"
    unfolding tmp_png_def tmp_svg_def by simp
qed

lemma write_file_iff:
  "write_file acc fs path data = Inr fs' \<longleftrightarrow> write_error acc path = None \<and> fs' = fs(path \<mapsto> data)"
  by (auto simp: write_file_def split: option.splits)

lemma write_file_error:
  "write_file acc fs path data = Inl e \<longleftrightarrow> write_error acc path = Some e"
  by (auto simp: write_file_def split: option.splits)

lemma color_run:
  "convert_to_color_svg v acc input_png output_svg fs = Inr fs1 \<longleftrightarrow>
     read_error acc input_png = None \<and> write_error acc output_svg = None \<and>
     (\<exists>svg. v color_args (fs input_png) = Inr svg \<and> fs1 = fs(output_svg \<mapsto> Text svg))"
  by (auto simp: convert_to_color_svg_def convert_image_to_svg_py_def write_file_def
      split: sum.splits option.splits)

lemma mono_run:
  "convert_to_monochrome_svg v acc input_png output_svg fs = Inr fs' \<longleftrightarrow>
     read_error acc input_png = None \<and>
     write_error acc ''/tmp/icon_silhouette.png'' = None \<and>
     read_error acc ''/tmp/icon_silhouette.png'' = None \<and>
     write_error acc ''/tmp/silhouette.svg'' = None \<and>
     read_error acc ''/tmp/silhouette.svg'' = None \<and>
     write_error acc output_svg = None \<and>
     (\<exists>img img_bw content.
        fs input_png = Some (Image img) \<and> silhouette img = Inr img_bw \<and>
        v binary_args (Some (Image img_bw)) = Inr content \<and>
        fs' = fs(''/tmp/icon_silhouette.png'' \<mapsto> Image img_bw,
                 ''/tmp/silhouette.svg'' \<mapsto> Text content,
                 output_svg \<mapsto> Text (mono_document content)))"
  by (auto simp: convert_to_monochrome_svg_def convert_image_to_svg_py_def Image_open_def
      read_text_def write_file_def split: sum.splits option.splits file_data.splits)

lemma mono_error:
  assumes "Image_open acc fs input_png = Inr img" and "silhouette img = Inr img_bw"
    and "v binary_args (Some (Image img_bw)) = Inr content"
    and "convert_to_monochrome_svg v acc input_png output_svg fs = Inl e"
  shows "write_error acc ''/tmp/icon_silhouette.png'' = Some e \<or>
         read_error acc ''/tmp/icon_silhouette.png'' = Some e \<or>
         write_error acc ''/tmp/silhouette.svg'' = Some e \<or>
         read_error acc ''/tmp/silhouette.svg'' = Some e \<or>
         write_error acc output_svg = Some e"
  using assms
  by (auto simp: convert_to_monochrome_svg_def convert_image_to_svg_py_def
      read_text_def write_file_def split: sum.splits option.splits file_data.splits if_splits)

lemma Image_open_iff:
  "Image_open acc fs path = Inr img \<longleftrightarrow> fs path = Some (Image img) \<and> read_error acc path = None"
  by (auto simp: Image_open_def split: option.splits file_data.splits)

lemma all_access_simps [simp]:
  "read_error all_access path = None" "write_error all_access path = None"
  by (simp_all add: all_access_def)

text \<open>
  C4, as stated, fails: when the vectorizer's output has no path element the extraction
  is empty, and the run completes and writes a document that is the header and the
  closing tag, with no shape.
\<close>

theorem empty_extraction_counterexample:
  \<open>convert_to_monochrome_svg (\<lambda>args f. Inr ''<svg></svg>'') all_access ''icon.png'' ''out.svg''
      [''icon.png'' \<mapsto> Image \<lparr>width = 1, height = 1, pixels = [(255, 255, 255, 0)]\<rparr>] =
    Inr [''icon.png'' \<mapsto> Image \<lparr>width = 1, height = 1, pixels = [(255, 255, 255, 0)]\<rparr>,
         ''/tmp/icon_silhouette.png'' \<mapsto>
            Image \<lparr>width = 1, height = 1, pixels = [(255, 255, 255, 255)]\<rparr>,
         ''/tmp/silhouette.svg'' \<mapsto> Text ''<svg></svg>'',
         ''out.svg'' \<mapsto> Text (svg_header @ ''</svg>'')] \<and>
   extract_paths ''<svg></svg>'' = []\<close>
proof -
  have ex: \<open>extract_paths ''<svg></svg>'' = []\<close>
    by (simp add: extract_paths_def eval_regex)
  have doc: \<open>mono_document ''<svg></svg>'' = svg_header @ ''</svg>''\<close>
    by (simp add: mono_document_eq ex)
  have sil: "silhouette \<lparr>width = 1, height = 1, pixels = [(255, 255, 255, 0)]\<rparr> =
      Inr \<lparr>width = 1, height = 1, pixels = [(255, 255, 255, 255)]\<rparr>"
    by (simp add: silhouette_def putdata_def Image_new_def)
  show ?thesis
    unfolding mono_run using ex doc sil by simp
qed

text \<open>
  C4, amended. Take a run in which the source image loads, the silhouette is built and
  the vectorizer returns a text from which the extraction, fallback included, yields no
  shape element. The empty extraction is not an error: if the two temporary files and the
  output file can be opened, the conversion completes; whenever it completes, the
  document it has written is the header and the closing tag only; and an error it
  raises is one raised by opening one of those files.
\<close>

theorem empty_extraction_is_no_error:
  assumes "Image_open acc fs input_png = Inr img" and "silhouette img = Inr img_bw"
    and "v binary_args (Some (Image img_bw)) = Inr content"
    and "extract_paths content = []"
  shows \<open>(write_error acc ''/tmp/icon_silhouette.png'' = None \<and>
          read_error acc ''/tmp/icon_silhouette.png'' = None \<and>
          write_error acc ''/tmp/silhouette.svg'' = None \<and>
          read_error acc ''/tmp/silhouette.svg'' = None \<and>
          write_error acc output_svg = None \<longrightarrow>
            (\<exists>fs'. convert_to_monochrome_svg v acc input_png output_svg fs = Inr fs')) \<and>
         (\<forall>fs'. convert_to_monochrome_svg v acc input_png output_svg fs = Inr fs' \<longrightarrow>
            fs' output_svg = Some (Text (svg_header @ ''</svg>''))) \<and>
         (\<forall>e. convert_to_monochrome_svg v acc input_png output_svg fs = Inl e \<longrightarrow>
            write_error acc ''/tmp/icon_silhouette.png'' = Some e \<or>
            read_error acc ''/tmp/icon_silhouette.png'' = Some e \<or>
            write_error acc ''/tmp/silhouette.svg'' = Some e \<or>
            read_error acc ''/tmp/silhouette.svg'' = Some e \<or>
            write_error acc output_svg = Some e)\<close>
proof -
  have doc: "mono_document content = svg_header @ ''</svg>''"
    using assms(4) by (simp add: mono_document_eq)
  have src: "fs input_png = Some (Image img)" and rd: "read_error acc input_png = None"
    using assms(1) by (simp_all add: Image_open_iff)
  have ok: "\<exists>fs'. convert_to_monochrome_svg v acc input_png output_svg fs = Inr fs'"
    if "write_error acc ''/tmp/icon_silhouette.png'' = None"
      "read_error acc ''/tmp/icon_silhouette.png'' = None"
      "write_error acc ''/tmp/silhouette.svg'' = None"
      "read_error acc ''/tmp/silhouette.svg'' = None"
      "write_error acc output_svg = None"
    unfolding mono_run using that src rd assms(2,3) by blast
  have out: "fs' output_svg = Some (Text (svg_header @ ''</svg>''))"
    if "convert_to_monochrome_svg v acc input_png output_svg fs = Inr fs'" for fs'
    using that src assms(2,3) doc unfolding mono_run by auto
  have err: "write_error acc ''/tmp/icon_silhouette.png'' = Some e \<or>
            read_error acc ''/tmp/icon_silhouette.png'' = Some e \<or>
            write_error acc ''/tmp/silhouette.svg'' = Some e \<or>
            read_error acc ''/tmp/silhouette.svg'' = Some e \<or>
            write_error acc output_svg = Some e"
    if "convert_to_monochrome_svg v acc input_png output_svg fs = Inl e" for e
    using assms(1-3) that by (rule mono_error)
  show ?thesis
    using ok out err by blast
qed

theorem empty_extraction_is_no_error_witness:
  \<open>extract_paths ''<svg><path d="M0 0" fill="#ffffff"/></svg>'' = [] \<and>
   (\<exists>fs'. convert_to_monochrome_svg (\<lambda>args f. Inr ''<svg><path d="M0 0" fill="#ffffff"/></svg>'')
             all_access ''icon.png'' ''out.svg''
             [''icon.png'' \<mapsto> Image \<lparr>width = 1, height = 1, pixels = [(0, 0, 0, 0)]\<rparr>] = Inr fs' \<and>
          fs' ''out.svg'' = Some (Text (svg_header @ ''</svg>'')))\<close>
proof -
  let ?img = "\<lparr>width = 1, height = 1, pixels = [(0, 0, 0, 0)]\<rparr>"
  let ?bw = "\<lparr>width = 1, height = 1, pixels = [(255, 255, 255, 255)]\<rparr>"
  let ?c = \<open>''<svg><path d="M0 0" fill="#ffffff"/></svg>''\<close>
  let ?v = "(\<lambda>args f. Inr ?c) :: vectorizer"
  let ?fs = "[''icon.png'' \<mapsto> Image ?img]"
  have h1: "Image_open all_access ?fs ''icon.png'' = Inr ?img"
    by (simp add: Image_open_def)
  have h2: "silhouette ?img = Inr ?bw"
    by (simp add: silhouette_def putdata_def Image_new_def)
  have h3: "?v binary_args (Some (Image ?bw)) = Inr ?c" by simp
  have h4: "extract_paths ?c = []"
    by (simp add: extract_paths_def eval_regex sublist_Cons_right lower_def lower_char_def)
  note t = empty_extraction_is_no_error [where acc = all_access and fs = ?fs
      and input_png = "''icon.png''" and img = ?img and img_bw = ?bw and v = ?v and content = ?c
      and output_svg = "''out.svg''"]
  obtain fs' where r: "convert_to_monochrome_svg ?v all_access ''icon.png'' ''out.svg'' ?fs = Inr fs'"
    using t h1 h2 h3 h4 by auto
  then have \<open>fs' ''out.svg'' = Some (Text (svg_header @ ''</svg>''))\<close>
    using t h1 h2 h3 h4 by blast
  then show ?thesis
    using h4 r by blast
qed

text \<open>
  C8, as stated, fails for a vectorizer that is free to drop small regions: the source
  has a foreground pixel, the vectorizer returns a document without path elements, and
  the final monochrome document has no shape element.
\<close>

theorem foreground_without_shapes_counterexample:
  \<open>foreground (0, 0, 0, 255) \<and>
   convert_to_monochrome_svg (\<lambda>args f. Inr ''<svg version="1.1" width="2" height="1"></svg>'')
      all_access ''icon.png'' ''out.svg''
      [''icon.png'' \<mapsto> Image \<lparr>width = 2, height = 1, pixels = [(0, 0, 0, 255), (0, 0, 0, 0)]\<rparr>] =
    Inr [''icon.png'' \<mapsto> Image \<lparr>width = 2, height = 1, pixels = [(0, 0, 0, 255), (0, 0, 0, 0)]\<rparr>,
         ''/tmp/icon_silhouette.png'' \<mapsto>
            Image \<lparr>width = 2, height = 1, pixels = [(0, 0, 0, 255), (255, 255, 255, 255)]\<rparr>,
         ''/tmp/silhouette.svg'' \<mapsto> Text ''<svg version="1.1" width="2" height="1"></svg>'',
         ''out.svg'' \<mapsto> Text (svg_header @ ''</svg>'')]\<close>
proof -
  let ?c = \<open>''<svg version="1.1" width="2" height="1"></svg>''\<close>
  have ex: "extract_paths ?c = []"
    by (simp add: extract_paths_def eval_regex)
  have doc: "mono_document ?c = svg_header @ ''</svg>''"
    by (simp add: mono_document_eq ex)
  have sil: "silhouette \<lparr>width = 2, height = 1, pixels = [(0, 0, 0, 255), (0, 0, 0, 0)]\<rparr> =
      Inr \<lparr>width = 2, height = 1, pixels = [(0, 0, 0, 255), (255, 255, 255, 255)]\<rparr>"
    by (simp add: silhouette_def putdata_def Image_new_def)
  have fg: "foreground (0, 0, 0, 255)"
    by (simp add: foreground_def)
  show ?thesis
    unfolding mono_run using fg doc sil by simp
qed

text \<open>
  C8, amended. Take a run in which the source is an image, the silhouette is built and the
  vectorizer returns a text. If the files can be opened the conversion completes;
  whenever it completes, the final monochrome document holds one line for each retained
  element; and the document holds at least one shape element exactly when the
  vectorizer's output has a matched path element that mentions black or does not mention
  white. The foreground pixels of the source play no part beyond what the vectorizer
  returns for them.
\<close>

theorem shapes_follow_vectorizer_output:
  assumes "fs input_png = Some (Image img)" and "silhouette img = Inr img_bw"
    and "v binary_args (Some (Image img_bw)) = Inr content"
  shows \<open>(read_error acc input_png = None \<and>
          write_error acc ''/tmp/icon_silhouette.png'' = None \<and>
          read_error acc ''/tmp/icon_silhouette.png'' = None \<and>
          write_error acc ''/tmp/silhouette.svg'' = None \<and>
          read_error acc ''/tmp/silhouette.svg'' = None \<and>
          write_error acc output_svg = None \<longrightarrow>
            (\<exists>fs'. convert_to_monochrome_svg v acc input_png output_svg fs = Inr fs')) \<and>
         (\<forall>fs'. convert_to_monochrome_svg v acc input_png output_svg fs = Inr fs' \<longrightarrow>
            fs' output_svg = Some (Text (svg_header @
              concat (map (\<lambda>p. sub fill_re ''fill="currentColor"'' p @ [CHR 0x0A])
                (extract_paths content)) @ ''</svg>''))) \<and>
         (extract_paths content \<noteq> [] \<longleftrightarrow>
            (\<exists>p\<in>set (findall path_re content). mentions_black p \<or> \<not> mentions_white p))\<close>
proof -
  have ne: "extract_paths content \<noteq> [] \<longleftrightarrow>
      (\<exists>p\<in>set (findall path_re content). mentions_black p \<or> \<not> mentions_white p)"
    unfolding extract_paths_eq by (auto simp: filter_empty_conv)
  have ok: "\<exists>fs'. convert_to_monochrome_svg v acc input_png output_svg fs = Inr fs'"
    if "read_error acc input_png = None"
      "write_error acc ''/tmp/icon_silhouette.png'' = None"
      "read_error acc ''/tmp/icon_silhouette.png'' = None"
      "write_error acc ''/tmp/silhouette.svg'' = None"
      "read_error acc ''/tmp/silhouette.svg'' = None"
      "write_error acc output_svg = None"
    unfolding mono_run using that assms by blast
  have out: \<open>fs' output_svg = Some (Text (svg_header @
              concat (map (\<lambda>p. sub fill_re ''fill="currentColor"'' p @ [CHR 0x0A])
                (extract_paths content)) @ ''</svg>''))\<close>
    if "convert_to_monochrome_svg v acc input_png output_svg fs = Inr fs'" for fs'
    using that assms mono_document_eq [of content] unfolding mono_run by auto
  show ?thesis
    using ok out ne by blast
qed

theorem shapes_follow_vectorizer_output_witness:
  \<open>\<exists>fs'. convert_to_monochrome_svg (\<lambda>args f. Inr ''<svg><path d="M0 0" fill="#000000"/></svg>'')
             all_access ''icon.png'' ''out.svg''
             [''icon.png'' \<mapsto> Image \<lparr>width = 1, height = 1, pixels = [(0, 0, 0, 255)]\<rparr>] = Inr fs' \<and>
          fs' ''out.svg'' =
            Some (Text (svg_header @ ''<path d="M0 0" fill="currentColor"/>'' @ [CHR 0x0A] @ ''</svg>''))\<close>
proof -
  let ?img = "\<lparr>width = 1, height = 1, pixels = [(0, 0, 0, 255)]\<rparr>"
  let ?c = \<open>''<svg><path d="M0 0" fill="#000000"/></svg>''\<close>
  let ?v = "(\<lambda>args f. Inr ?c) :: vectorizer"
  let ?fs = "[''icon.png'' \<mapsto> Image ?img]"
  have h1: "?fs ''icon.png'' = Some (Image ?img)" by simp
  have h2: "silhouette ?img = Inr ?img"
    by (simp add: silhouette_def putdata_def Image_new_def)
  have h3: "?v binary_args (Some (Image ?img)) = Inr ?c" by simp
  have ex: \<open>extract_paths ?c = [''<path d="M0 0" fill="#000000"/>'']\<close>
    by (simp add: extract_paths_def eval_regex sublist_Cons_right)
  have sb: \<open>sub fill_re ''fill="currentColor"'' ''<path d="M0 0" fill="#000000"/>'' =
      ''<path d="M0 0" fill="currentColor"/>''\<close>
    by (simp add: eval_regex)
  note t = shapes_follow_vectorizer_output [where acc = all_access and fs = ?fs
      and input_png = "''icon.png''" and img = ?img and img_bw = ?img and v = ?v and content = ?c
      and output_svg = "''out.svg''"]
  obtain fs' where r: "convert_to_monochrome_svg ?v all_access ''icon.png'' ''out.svg'' ?fs = Inr fs'"
    using t h1 h2 h3 by auto
  then have o: \<open>fs' ''out.svg'' = Some (Text (svg_header @
             concat (map (\<lambda>p. sub fill_re ''fill="currentColor"'' p @ [CHR 0x0A])
               (extract_paths ?c)) @ ''</svg>''))\<close>
    using t h1 h2 h3 by blast
  have \<open>fs' ''out.svg'' =
      Some (Text (svg_header @ ''<path d="M0 0" fill="currentColor"/>'' @ [CHR 0x0A] @ ''</svg>''))\<close>
    unfolding o ex using sb by simp
  then show ?thesis
    using r by blast
qed

text \<open>
  C9. With the vectorizer a function of its arguments and its input file, a run that
  succeeds leaves the source bitmap unchanged, and every run from a file system with the
  same source bitmap, whatever else the file system holds, also succeeds and writes the
  same colour document and the same monochrome document.
\<close>

theorem main_outputs_determined_by_source:
  assumes "main v acc project_dir fs = Inr fs'"
    and "fs2 (os_path_join project_dir ''icon.png'') = fs (os_path_join project_dir ''icon.png'')"
  shows "fs' (os_path_join project_dir ''icon.png'') = fs (os_path_join project_dir ''icon.png'') \<and>
    (\<exists>fs2'. main v acc project_dir fs2 = Inr fs2' \<and>
       fs2' (os_path_join project_dir ''icon.svg'') = fs' (os_path_join project_dir ''icon.svg'') \<and>
       fs2' (os_path_join project_dir ''activitybar-icon.svg'') =
         fs' (os_path_join project_dir ''activitybar-icon.svg''))"
proof -
  let ?input = "os_path_join project_dir ''icon.png''"
  let ?color = "os_path_join project_dir ''icon.svg''"
  let ?mono = "os_path_join project_dir ''activitybar-icon.svg''"
  note d = project_paths_distinct
  from assms(1) obtain fs1 where c: "convert_to_color_svg v acc ?input ?color fs = Inr fs1"
    and m: "convert_to_monochrome_svg v acc ?input ?mono fs1 = Inr fs'"
    by (auto simp: main_def Let_def split: sum.splits)
  from c obtain svg where svg: "v color_args (fs ?input) = Inr svg"
    and fs1: "fs1 = fs(?color \<mapsto> Text svg)"
    and acc1: "read_error acc ?input = None" "write_error acc ?color = None"
    unfolding color_run by blast
  from m obtain img img_bw content where img: "fs1 ?input = Some (Image img)"
    and bw: "silhouette img = Inr img_bw"
    and content: "v binary_args (Some (Image img_bw)) = Inr content"
    and fs': "fs' = fs1(''/tmp/icon_silhouette.png'' \<mapsto> Image img_bw,
                 ''/tmp/silhouette.svg'' \<mapsto> Text content,
                 ?mono \<mapsto> Text (mono_document content))"
    and acc2: "write_error acc ''/tmp/icon_silhouette.png'' = None"
      "read_error acc ''/tmp/icon_silhouette.png'' = None"
      "write_error acc ''/tmp/silhouette.svg'' = None"
      "read_error acc ''/tmp/silhouette.svg'' = None"
      "write_error acc ?mono = None"
    unfolding mono_run by blast
  have src: "fs' ?input = fs ?input"
    unfolding fs' fs1 using d by simp
  let ?fs21 = "fs2(?color \<mapsto> Text svg)"
  let ?fs2' = "?fs21(''/tmp/icon_silhouette.png'' \<mapsto> Image img_bw,
                 ''/tmp/silhouette.svg'' \<mapsto> Text content,
                 ?mono \<mapsto> Text (mono_document content))"
  have c2: "convert_to_color_svg v acc ?input ?color fs2 = Inr ?fs21"
    unfolding color_run using svg assms(2) acc1 by simp
  have "?fs21 ?input = Some (Image img)"
    using img assms(2) d unfolding fs1 by simp
  then have m2: "convert_to_monochrome_svg v acc ?input ?mono ?fs21 = Inr ?fs2'"
    unfolding mono_run using bw content acc1 acc2 by blast
  have run2: "main v acc project_dir fs2 = Inr ?fs2'"
    using c2 m2 by (simp add: main_def Let_def)
  have "?fs2' ?color = fs' ?color" and "?fs2' ?mono = fs' ?mono"
    unfolding fs' fs1 using d by simp_all
  then show ?thesis
    using src run2 by blast
qed

theorem main_outputs_determined_by_source_witness:
  \<open>\<exists>fs' fs2'.
      main (\<lambda>args f. case f of Some (Image img) \<Rightarrow> Inr (colormode args) | _ \<Rightarrow> Inl VectorizerError)
        all_access ''/proj''
        [''/proj/icon.png'' \<mapsto> Image \<lparr>width = 1, height = 1, pixels = [(0, 0, 0, 255)]\<rparr>] =
        Inr fs' \<and>
      main (\<lambda>args f. case f of Some (Image img) \<Rightarrow> Inr (colormode args) | _ \<Rightarrow> Inl VectorizerError)
        all_access ''/proj'' fs' = Inr fs2' \<and>
      fs' ''/proj/icon.svg'' = Some (Text ''color'') \<and>
      fs2' ''/proj/icon.svg'' = fs' ''/proj/icon.svg'' \<and>
      fs2' ''/proj/activitybar-icon.svg'' = fs' ''/proj/activitybar-icon.svg''\<close>
proof -
  let ?v = "(\<lambda>args f. case f of Some (Image img) \<Rightarrow> Inr (colormode args) | _ \<Rightarrow> Inl VectorizerError) :: vectorizer"
  let ?img = "\<lparr>width = 1, height = 1, pixels = [(0, 0, 0, 255)]\<rparr>"
  let ?fs = "[''/proj/icon.png'' \<mapsto> Image ?img]"
  have sil: "silhouette ?img = Inr ?img"
    by (simp add: silhouette_def putdata_def Image_new_def)
  have j: "os_path_join ''/proj'' ''icon.png'' = ''/proj/icon.png''"
    "os_path_join ''/proj'' ''icon.svg'' = ''/proj/icon.svg''"
    "os_path_join ''/proj'' ''activitybar-icon.svg'' = ''/proj/activitybar-icon.svg''"
    by (simp_all add: os_path_join_def)
  have "\<exists>fs'. main ?v all_access ''/proj'' ?fs = Inr fs' \<and> fs' ''/proj/icon.svg'' = Some (Text ''color'')"
    using sil
    by (simp add: main_def j convert_to_color_svg_def convert_image_to_svg_py_def color_args_def
        convert_to_monochrome_svg_def Image_open_def read_text_def write_file_def)
  then obtain fs' where run: "main ?v all_access ''/proj'' ?fs = Inr fs'"
    and col: "fs' ''/proj/icon.svg'' = Some (Text ''color'')"
    by blast
  have same: "fs' ''/proj/icon.png'' = ?fs ''/proj/icon.png''"
    using run
      main_outputs_determined_by_source [where v = ?v and acc = all_access
        and project_dir = "''/proj''" and fs = ?fs and fs' = fs' and ?fs2.0 = ?fs]
    unfolding j by blast
  obtain fs2' where "main ?v all_access ''/proj'' fs' = Inr fs2'"
    and "fs2' ''/proj/icon.svg'' = fs' ''/proj/icon.svg''"
    and "fs2' ''/proj/activitybar-icon.svg'' = fs' ''/proj/activitybar-icon.svg''"
    using run same
      main_outputs_determined_by_source [where v = ?v and acc = all_access
        and project_dir = "''/proj''" and fs = ?fs and fs' = fs' and ?fs2.0 = fs']
    unfolding j by blast
  then show ?thesis
    using run col by blast
qed

end
